theory Spec2Isabelle
  imports Complex_Main
begin

section \<open>Numbers\<close>

text \<open>
  The carousel computes with JavaScript numbers. They are modelled as exact reals: rounding
  is left out (on integers, and on the pixel measures of a page, the sums, differences and
  comparisons of the source are exact), and so are \<open>NaN\<close> and the infinities, except
  where the source can produce them from finite values: the division that computes the drag
  threshold is modelled with its non-finite results written out (see \<open>dragThreshold\<close>).
\<close>

type_synonym number = real

section \<open>Adaptive height coordinator (hooks/use-frame-height.ts)\<close>

text \<open>The entries of \<open>visibleHeights\<close>: objects \<open>{ slideIndex, height }\<close>.\<close>

record SlideHeight =
  slideIndex :: number
  height :: number

text \<open>
  The two pieces of state of \<open>useFrameHeight\<close>. \<open>visibleHeightsRef.current\<close> always holds
  the latest value of \<open>visibleHeights\<close>, so one field stands for both.
\<close>

record frame_state =
  visibleHeights :: "SlideHeight list"
  initializedAdaptiveHeight :: bool

definition initialFrameState :: frame_state where
  "initialFrameState = \<lparr>visibleHeights = [], initializedAdaptiveHeight = False\<rparr>"

text \<open>
  \<open>handleVisibleSlideHeightChange(slideIndex, height)\<close>, with the hook's arguments
  \<open>numSlides\<close> and \<open>slidesToShow\<close>. A \<open>null\<close> height is \<open>None\<close>. The flag
  \<open>foundSlide\<close> is set by the callback of \<open>map\<close> exactly when some entry has the
  reported index.
\<close>

definition handleVisibleSlideHeightChange ::
    "number \<Rightarrow> number \<Rightarrow> number \<Rightarrow> number option \<Rightarrow> frame_state \<Rightarrow> frame_state" where
  "handleVisibleSlideHeightChange numSlides slidesToShow idx h st =
     (let latestVisibleHeights = visibleHeights st;
          newVisibleHeights =
            (case h of
               None \<Rightarrow> filter (\<lambda>slideHeight. slideIndex slideHeight \<noteq> idx) latestVisibleHeights
             | Some v \<Rightarrow>
                 (let foundSlide = list_ex (\<lambda>heightInfo. slideIndex heightInfo = idx) latestVisibleHeights;
                      mapped = map (\<lambda>heightInfo.
                                 if slideIndex heightInfo = idx
                                 then \<lparr>slideIndex = idx, height = v\<rparr>
                                 else heightInfo) latestVisibleHeights
                  in if \<not> foundSlide
                     then latestVisibleHeights @ [\<lparr>slideIndex = idx, height = v\<rparr>]
                     else mapped))
      in st\<lparr>visibleHeights := newVisibleHeights,
            initializedAdaptiveHeight :=
              (if real (length newVisibleHeights) \<ge> min numSlides (of_int \<lceil>slidesToShow\<rceil>)
               then True else initializedAdaptiveHeight st)\<rparr>)"

text \<open>
  The CSS height of the frame: \<open>Auto\<close> is the string \<open>'auto'\<close>, and \<open>Px h\<close> is the
  template string made of the number \<open>h\<close> followed by \<open>px\<close>.
\<close>

datatype css_height = Auto | Px number

text \<open>\<open>Math.max(0, ...heights)\<close>: the maximum of 0 and every listed height.\<close>

definition maxHeight :: "SlideHeight list \<Rightarrow> number" where
  "maxHeight hs = fold max (map height hs) 0"

definition frameHeight :: "bool \<Rightarrow> frame_state \<Rightarrow> css_height" where
  "frameHeight adaptiveHeight st =
     (if adaptiveHeight
      then (if \<not> initializedAdaptiveHeight st then Auto
            else Px (maxHeight (visibleHeights st)))
      else Auto)"

text \<open>A sequence of reports, handled one after the other from the hook's initial state.\<close>

definition reportHeights ::
    "number \<Rightarrow> number \<Rightarrow> (number \<times> number option) list \<Rightarrow> frame_state" where
  "reportHeights numSlides slidesToShow reports =
     foldl (\<lambda>st (idx, h). handleVisibleSlideHeightChange numSlides slidesToShow idx h st)
       initialFrameState reports"

text \<open>
  The distinct slide indices from which a numeric height report has been received so far:
  the quantity the specification's sentence counts. It is not a quantity of the source.
\<close>

definition reportedSlides :: "(number \<times> number option) list \<Rightarrow> number list" where
  "reportedSlides reports = remdups (map fst (filter (\<lambda>(idx, h). h \<noteq> None) reports))"

section \<open>Carousel controller (the compiled carousel component)\<close>

subsection \<open>Configuration\<close>

text \<open>
  The props the modelled code reads. \<open>children\<close> is the number of children, so that
  \<open>React.Children.count(props.children)\<close> is \<open>count\<close> below. The props \<open>slideIndex\<close>,
  \<open>animation\<close> and \<open>dragging\<close> carry the suffix \<open>_prop\<close>: the first shares its name
  with a field of the height entries, the other two with state variables of the component.
  \<open>slideIndex_prop\<close> is a number, so the test \<open>typeof props.slideIndex === 'number'\<close>
  holds.
\<close>

record props =
  children :: nat
  slidesToShow :: number
  slidesToScroll :: number
  slideIndex_prop :: number
  animation_prop :: string
  scrollMode :: string
  wrapAround :: bool
  autoplay :: bool
  autoplayReverse :: bool
  autoplayInterval :: number
  disableAnimation :: bool
  speed :: number
  dragging_prop :: bool
  disableEdgeSwiping :: bool

definition count :: "props \<Rightarrow> number" where
  "count p = real (children p)"

text \<open>The local \<open>slidesToScroll\<close> of the component (as opposed to \<open>props.slidesToScroll\<close>).\<close>

definition slidesToScroll_local :: "props \<Rightarrow> number" where
  "slidesToScroll_local p =
     (if animation_prop p = ''fade'' then slidesToShow p else slidesToScroll p)"

text \<open>\<open>props.speed || 500\<close>: the only falsy number among the reals is 0.\<close>

definition speedOrDefault :: "props \<Rightarrow> number" where
  "speedOrDefault p = (if speed p = 0 then 500 else speed p)"

text \<open>
  The functions imported from \<open>./utils\<close>. Their source is not part of the modelled files,
  so the controller takes them as parameters. \<open>getIndexes\<close> returns an array, of which the
  controller reads the first element.
\<close>

record utils =
  getIndexes :: "number \<Rightarrow> number \<Rightarrow> number \<Rightarrow> number list"
  getNextMoveIndex :: "string \<Rightarrow> bool \<Rightarrow> number \<Rightarrow> number \<Rightarrow> number \<Rightarrow> number \<Rightarrow> number"
  getPrevMoveIndex :: "string \<Rightarrow> bool \<Rightarrow> number \<Rightarrow> number \<Rightarrow> number"

text \<open>
  Modelled from the spec: \<open>getNextMoveIndex\<close> of \<open>./utils\<close> is missing from the sources.
  The specification says of it: advances by slidesToScroll; if wrap-around is disabled,
  clamps so the last visible window does not exceed count - slidesToShow.
\<close>

definition spec_getNextMoveIndex ::
    "string \<Rightarrow> bool \<Rightarrow> number \<Rightarrow> number \<Rightarrow> number \<Rightarrow> number \<Rightarrow> number" where
  "spec_getNextMoveIndex mode wrap current cnt toScroll toShow =
     (if wrap then current + toScroll else min (current + toScroll) (cnt - toShow))"

text \<open>
  Modelled from the spec: \<open>getPrevMoveIndex\<close> of \<open>./utils\<close> is missing from the sources.
  The specification says of it: symmetric backward step; without wrap-around, floors at 0.
\<close>

definition spec_getPrevMoveIndex :: "string \<Rightarrow> bool \<Rightarrow> number \<Rightarrow> number \<Rightarrow> number" where
  "spec_getPrevMoveIndex mode wrap current toScroll =
     (if wrap then current - toScroll else max (current - toScroll) 0)"

subsection \<open>State\<close>

text \<open>
  The callbacks of the props are observed through a log: each invocation appends an entry.
  \<open>BeforeSlide\<close> carries the first element of \<open>getIndexes(...)\<close> (absent when the array is
  empty) and the normalised target.
\<close>

datatype callback =
    BeforeSlide "number option" number
  | AfterSlide number
  | OnDragStart
  | OnDragEnd

text \<open>
  The closures handed to \<open>setTimeout\<close>, each with the variables it captured: the settle
  callback of \<open>moveSlide\<close> (\<open>to\<close> and \<open>nextIndex\<close>), a wrap-around correction (the index it
  sets) and the autoplay tick (the \<open>currentSlide\<close> of the render that scheduled it).
\<close>

datatype task =
    Settle "number option" number
  | Correction number
  | AutoplayTick number

text \<open>
  The state variables and refs of the component that the modelled code touches, the pending
  timeouts as (handle, delay in ms, closure) in the order they were scheduled, the next
  fresh timer handle, and the callback log. \<open>carouselWidth\<close> is \<open>null\<close> until the frame
  has been measured, and then an \<open>offsetWidth\<close>, a non-negative integer.
\<close>

record carousel_state =
  currentSlide :: number
  animation :: bool
  pause :: bool
  dragging :: bool
  move :: number
  prevMove :: number
  carouselWidth :: "nat option"
  timer :: "nat option"
  isMounted :: bool
  timeouts :: "(nat \<times> number \<times> task) list"
  nextHandle :: nat
  calls :: "callback list"

text \<open>The first render: the initial values of \<open>useState\<close> and \<open>useRef\<close>.\<close>

definition initialState :: "props \<Rightarrow> carousel_state" where
  "initialState p =
     \<lparr>currentSlide = (if autoplayReverse p then count p - slidesToShow p else slideIndex_prop p),
      animation = False, pause = False, dragging = False, move = 0, prevMove = 0,
      carouselWidth = None, timer = None, isMounted = True,
      timeouts = [], nextHandle = 1, calls = []\<rparr>"

subsection \<open>Timers\<close>

definition setTimeout :: "task \<Rightarrow> number \<Rightarrow> carousel_state \<Rightarrow> nat \<times> carousel_state" where
  "setTimeout t delay st =
     (nextHandle st,
      st\<lparr>timeouts := timeouts st @ [(nextHandle st, delay, t)],
         nextHandle := Suc (nextHandle st)\<rparr>)"

definition clearTimeout :: "nat \<Rightarrow> carousel_state \<Rightarrow> carousel_state" where
  "clearTimeout h st = st\<lparr>timeouts := filter (\<lambda>(h', d, t). h' \<noteq> h) (timeouts st)\<rparr>"

text \<open>
  \<open>if (timer.current) clearTimeout(timer.current)\<close>: timer handles are positive integers,
  so a stored handle is truthy.
\<close>

definition clearAutoplayTimer :: "carousel_state \<Rightarrow> carousel_state" where
  "clearAutoplayTimer st = (case timer st of None \<Rightarrow> st | Some h \<Rightarrow> clearTimeout h st)"

subsection \<open>Moving between slides\<close>

text \<open>
  \<open>getNextIndex(to)\<close>, with the variables \<open>count\<close> and \<open>currentSlide\<close> of its closure as
  arguments. An omitted (or \<open>null\<close>) \<open>to\<close> is \<open>None\<close>.
\<close>

definition getNextIndex :: "number \<Rightarrow> number \<Rightarrow> number option \<Rightarrow> number" where
  "getNextIndex cnt current to =
     (let index = (case to of Some t \<Rightarrow> t | None \<Rightarrow> current)
      in if index < 0 then index + cnt
         else if index = cnt then 0
         else index)"

text \<open>\<open>_slicedToArray(getIndexes(...), 1)[0]\<close>: the first element, \<open>undefined\<close> on an empty array.\<close>

definition firstIndex :: "number list \<Rightarrow> number option" where
  "firstIndex xs = (case xs of [] \<Rightarrow> None | x # _ \<Rightarrow> Some x)"

text \<open>
  \<open>moveSlide(to)\<close>. The test \<open>typeof to === 'number'\<close> is \<open>to \<noteq> None\<close>. The settle
  callback is scheduled with the \<open>to\<close> and \<open>nextIndex\<close> it captures.
\<close>

definition moveSlide :: "utils \<Rightarrow> props \<Rightarrow> number option \<Rightarrow> carousel_state \<Rightarrow> carousel_state" where
  "moveSlide u p to st =
     (let slide = firstIndex (getIndexes u (currentSlide st)
                    (currentSlide st - slidesToScroll_local p) (count p));
          nextIndex = getNextIndex (count p) (currentSlide st) to;
          st1 = (case to of
                   Some t \<Rightarrow> st\<lparr>calls := calls st @ [BeforeSlide slide nextIndex]\<rparr>
                 | None \<Rightarrow> st);
          st2 = (if \<not> disableAnimation p then st1\<lparr>animation := True\<rparr> else st1);
          st3 = st2\<lparr>currentSlide := (case to of Some t \<Rightarrow> t | None \<Rightarrow> currentSlide st)\<rparr>
      in snd (setTimeout (Settle to nextIndex)
                (if \<not> disableAnimation p then speedOrDefault p else 40) st3))"

definition nextSlide :: "utils \<Rightarrow> props \<Rightarrow> carousel_state \<Rightarrow> carousel_state" where
  "nextSlide u p st =
     (if wrapAround p \<or> currentSlide st < count p - slidesToScroll p
      then moveSlide u p
             (Some (getNextMoveIndex u (scrollMode p) (wrapAround p) (currentSlide st)
                      (count p) (slidesToScroll p) (slidesToShow p))) st
      else moveSlide u p None st)"

definition prevSlide :: "utils \<Rightarrow> props \<Rightarrow> carousel_state \<Rightarrow> carousel_state" where
  "prevSlide u p st =
     (if wrapAround p \<or> currentSlide st > 0
      then moveSlide u p
             (Some (getPrevMoveIndex u (scrollMode p) (wrapAround p) (currentSlide st)
                      (slidesToScroll p))) st
      else moveSlide u p None st)"

subsection \<open>Effects\<close>

text \<open>The effect on \<open>props.slideIndex\<close>.\<close>

definition slideIndexEffect :: "utils \<Rightarrow> props \<Rightarrow> carousel_state \<Rightarrow> carousel_state" where
  "slideIndexEffect u p st =
     (if \<not> autoplayReverse p then moveSlide u p (Some (slideIndex_prop p)) st else st)"

text \<open>The effect on \<open>animation\<close> and \<open>currentSlide\<close>: the correction under autoplay.\<close>

definition autoplayCorrection :: "props \<Rightarrow> carousel_state \<Rightarrow> carousel_state" where
  "autoplayCorrection p st =
     (if autoplay p \<and> \<not> animation st \<and> wrapAround p
      then (if currentSlide st > count p
            then clearAutoplayTimer (st\<lparr>currentSlide := currentSlide st - count p\<rparr>)
            else if currentSlide st < 0
            then clearAutoplayTimer (st\<lparr>currentSlide := count p - - currentSlide st\<rparr>)
            else st)
      else st)"

text \<open>
  The autoplay effect on \<open>currentSlide\<close> and \<open>pause\<close>, and the cleanup function it returns.
\<close>

definition autoplayEffect :: "props \<Rightarrow> carousel_state \<Rightarrow> carousel_state" where
  "autoplayEffect p st =
     (let st1 = (if autoplay p \<and> \<not> pause st
                 then (case setTimeout (AutoplayTick (currentSlide st)) (autoplayInterval p) st of
                         (h, st') \<Rightarrow> st'\<lparr>timer := Some h\<rparr>)
                 else st)
      in if autoplay p \<and> pause st then clearAutoplayTimer st1 else st1)"

definition autoplayCleanup :: "carousel_state \<Rightarrow> carousel_state" where
  "autoplayCleanup st = clearAutoplayTimer st"

text \<open>The effect on \<open>currentSlide\<close> that "makes the loop infinity".\<close>

definition wrapCorrection :: "props \<Rightarrow> carousel_state \<Rightarrow> carousel_state" where
  "wrapCorrection p st =
     (if wrapAround p \<and> \<not> autoplay p
      then (let speed' = (if \<not> disableAnimation p then speedOrDefault p else 0)
            in if currentSlide st \<le> - slidesToShow p
               then snd (setTimeout (Correction (count p - - currentSlide st)) (speed' + 10) st)
               else if currentSlide st \<ge> count p
               then snd (setTimeout (Correction (currentSlide st - count p)) (speed' + 10) st)
               else st)
      else st)"

text \<open>The frame is measured once, after the first render; unmounting clears the flag.\<close>

definition measureFrame :: "nat \<Rightarrow> carousel_state \<Rightarrow> carousel_state" where
  "measureFrame offsetWidth st = st\<lparr>carouselWidth := Some offsetWidth\<rparr>"

definition unmount :: "carousel_state \<Rightarrow> carousel_state" where
  "unmount st = st\<lparr>isMounted := False\<rparr>"

text \<open>
  What a timeout does when it fires. The autoplay tick runs \<open>nextSlide\<close> or \<open>prevSlide\<close>
  of the render that scheduled it, so these read the \<open>currentSlide\<close> it captured.
\<close>

definition runTask :: "utils \<Rightarrow> props \<Rightarrow> task \<Rightarrow> carousel_state \<Rightarrow> carousel_state" where
  "runTask u p t st =
     (case t of
        Settle to nextIndex \<Rightarrow>
          (if \<not> isMounted st then st
           else (let st1 = (case to of
                              Some t' \<Rightarrow> st\<lparr>calls := calls st @ [AfterSlide nextIndex]\<rparr>
                            | None \<Rightarrow> st)
                 in if \<not> disableAnimation p then st1\<lparr>animation := False\<rparr> else st1))
      | Correction v \<Rightarrow>
          (if \<not> isMounted st then st else st\<lparr>currentSlide := v\<rparr>)
      | AutoplayTick c \<Rightarrow>
          (if autoplayReverse p
           then (if \<not> wrapAround p \<and> c > 0 then prevSlide u p (st\<lparr>currentSlide := c\<rparr>)
                 else if wrapAround p then prevSlide u p (st\<lparr>currentSlide := c\<rparr>)
                 else st)
           else if \<not> wrapAround p \<and> c < count p - slidesToShow p
           then nextSlide u p (st\<lparr>currentSlide := c\<rparr>)
           else if wrapAround p then nextSlide u p (st\<lparr>currentSlide := c\<rparr>)
           else st))"

text \<open>The timeout with handle \<open>h\<close> fires: it leaves the pending list and its closure runs.\<close>

definition fireTimeout :: "utils \<Rightarrow> props \<Rightarrow> nat \<Rightarrow> carousel_state \<Rightarrow> carousel_state" where
  "fireTimeout u p h st =
     (case find (\<lambda>(h', d, t). h' = h) (timeouts st) of
        None \<Rightarrow> st
      | Some (h', d, t) \<Rightarrow> runTask u p t (clearTimeout h st))"

subsection \<open>Gestures\<close>

text \<open>
  \<open>dragThreshold = (carouselWidth.current || 0) / props.slidesToShow / 2\<close>. Dividing by
  zero yields \<open>Infinity\<close> from a positive width and \<open>NaN\<close> from width 0; both stay what
  they are when halved.
\<close>

datatype quotient = Finite number | Infinity | NaN

definition dragThreshold :: "props \<Rightarrow> carousel_state \<Rightarrow> quotient" where
  "dragThreshold p st =
     (let width = (case carouselWidth st of None \<Rightarrow> 0 | Some w \<Rightarrow> real w)
      in if slidesToShow p = 0
         then (if width = 0 then NaN else Infinity)
         else Finite (width / slidesToShow p / 2))"

text \<open>
  \<open>x <= dragThreshold\<close> and \<open>x > dragThreshold\<close> for a finite \<open>x\<close>: every comparison with
  \<open>NaN\<close> is false.
\<close>

definition leThreshold :: "number \<Rightarrow> quotient \<Rightarrow> bool" where
  "leThreshold x q = (case q of Finite t \<Rightarrow> x \<le> t | Infinity \<Rightarrow> True | NaN \<Rightarrow> False)"

definition gtThreshold :: "number \<Rightarrow> quotient \<Rightarrow> bool" where
  "gtThreshold x q = (case q of Finite t \<Rightarrow> x > t | Infinity \<Rightarrow> False | NaN \<Rightarrow> False)"

text \<open>\<open>onMouseDown\<close>: a drag starts (giving the frame the focus is left out).\<close>

definition onMouseDown :: "props \<Rightarrow> carousel_state \<Rightarrow> carousel_state" where
  "onMouseDown p st =
     (if \<not> dragging_prop p then st
      else st\<lparr>dragging := True, calls := calls st @ [OnDragStart]\<rparr>)"

definition handleDragEnd :: "utils \<Rightarrow> props \<Rightarrow> carousel_state \<Rightarrow> carousel_state" where
  "handleDragEnd u p st =
     (if \<not> dragging_prop p \<or> \<not> dragging st then st
      else (let st1 = st\<lparr>dragging := False, calls := calls st @ [OnDragEnd]\<rparr>
            in if leThreshold \<bar>move st\<bar> (dragThreshold p st)
               then (moveSlide u p None st1)\<lparr>move := 0, prevMove := 0\<rparr>
               else (if move st > 0 then nextSlide u p st1 else prevSlide u p st1)
                      \<lparr>move := 0, prevMove := 0\<rparr>))"

definition handlePointerMove :: "utils \<Rightarrow> props \<Rightarrow> number \<Rightarrow> carousel_state \<Rightarrow> carousel_state" where
  "handlePointerMove u p m st =
     (if \<not> dragging_prop p \<or> \<not> dragging st then st
      else (let moveValue = m * 0.75;
                moveState = move st + (moveValue - prevMove st)
            in if gtThreshold \<bar>move st\<bar> (dragThreshold p st)
               then handleDragEnd u p st
               else if \<not> wrapAround p \<and> disableEdgeSwiping p \<and>
                       (currentSlide st \<le> 0 \<and> moveState \<le> 0 \<or>
                        moveState > 0 \<and> currentSlide st \<ge> count p - slidesToShow p)
               then st\<lparr>prevMove := moveValue\<rparr>
               else (if prevMove st \<noteq> 0 then st\<lparr>move := moveState\<rparr> else st)
                      \<lparr>prevMove := moveValue\<rparr>))"

subsection \<open>An example configuration\<close>

text \<open>
  The configuration of the specification's end-to-end example (six slides, three shown, three
  scrolled, no wrap-around), and the functions of \<open>./utils\<close> as modelled above. The array
  standing in for the result of \<open>getIndexes\<close> is arbitrary: nothing proved depends on it.
\<close>

definition exampleProps :: props where
  "exampleProps =
     \<lparr>children = 6, slidesToShow = 3, slidesToScroll = 3, slideIndex_prop = 0,
      animation_prop = ''zoom'', scrollMode = ''remainder'', wrapAround = False,
      autoplay = False, autoplayReverse = False, autoplayInterval = 3000,
      disableAnimation = False, speed = 500, dragging_prop = True,
      disableEdgeSwiping = False\<rparr>"

definition exampleUtils :: utils where
  "exampleUtils =
     \<lparr>getIndexes = (\<lambda>current previous cnt. [current, previous]),
      getNextMoveIndex = spec_getNextMoveIndex,
      getPrevMoveIndex = spec_getPrevMoveIndex\<rparr>"

section \<open>Properties of the adaptive height coordinator\<close>

subsection \<open>The collection of visible heights\<close>

lemma visibleHeights_remove:
  "visibleHeights (handleVisibleSlideHeightChange n s idx None st) =
     filter (\<lambda>e. slideIndex e \<noteq> idx) (visibleHeights st)"
  by (simp add: handleVisibleSlideHeightChange_def Let_def)

lemma visibleHeights_replace:
  "idx \<in> slideIndex ` set (visibleHeights st) \<Longrightarrow>
   visibleHeights (handleVisibleSlideHeightChange n s idx (Some v) st) =
     map (\<lambda>e. if slideIndex e = idx then \<lparr>slideIndex = idx, height = v\<rparr> else e) (visibleHeights st)"
  by (auto simp add: handleVisibleSlideHeightChange_def Let_def list_ex_iff)

lemma visibleHeights_append:
  "idx \<notin> slideIndex ` set (visibleHeights st) \<Longrightarrow>
   visibleHeights (handleVisibleSlideHeightChange n s idx (Some v) st) =
     visibleHeights st @ [\<lparr>slideIndex = idx, height = v\<rparr>]"
  by (auto simp add: handleVisibleSlideHeightChange_def Let_def list_ex_iff)

lemma replace_keeps_indices:
  "map slideIndex (map (\<lambda>e. if slideIndex e = idx then \<lparr>slideIndex = idx, height = v\<rparr> else e) vs)
     = map slideIndex vs"
  by (induction vs) auto

lemma handle_distinct:
  assumes "distinct (map slideIndex (visibleHeights st))"
  shows "distinct (map slideIndex (visibleHeights (handleVisibleSlideHeightChange n s idx h st)))"
proof (cases h)
  case None
  then show ?thesis using assms by (simp add: visibleHeights_remove distinct_map_filter)
next
  case (Some v)
  show ?thesis
  proof (cases "idx \<in> slideIndex ` set (visibleHeights st)")
    case True
    then show ?thesis using assms Some
      by (simp only: visibleHeights_replace replace_keeps_indices)
  next
    case False
    then show ?thesis using assms Some
      by (simp add: visibleHeights_append)
  qed
qed

lemma reportHeights_snoc:
  "reportHeights n s (rs @ [(idx, h)]) =
     handleVisibleSlideHeightChange n s idx h (reportHeights n s rs)"
  by (simp add: reportHeights_def)

lemma reportHeights_distinct:
  "distinct (map slideIndex (visibleHeights (reportHeights n s rs)))"
proof (induction rs rule: rev_induct)
  case Nil
  then show ?case by (simp add: reportHeights_def initialFrameState_def)
next
  case (snoc r rs)
  obtain idx h where "r = (idx, h)" by (cases r)
  then show ?case using snoc by (simp add: reportHeights_snoc handle_distinct)
qed

lemma registered_card:
  "card (slideIndex ` set (visibleHeights (reportHeights n s rs))) =
     length (visibleHeights (reportHeights n s rs))"
  using reportHeights_distinct [of n s rs] distinct_card [of "map slideIndex (visibleHeights (reportHeights n s rs))"]
  by simp

text \<open>
  Claim C9. Whatever sequence of \<open>handleVisibleSlideHeightChange\<close> calls is made from the
  empty collection, no two entries of the collection have the same \<open>slideIndex\<close>. On such a
  collection, a numeric report for a registered index replaces that entry where it stands
  (same number of entries, same indices in the same order), a numeric report for a new index
  appends exactly one entry, and a \<open>null\<close> report removes every entry with that index.
\<close>

theorem visibleHeights_unique_index:
  "distinct (map slideIndex (visibleHeights (reportHeights n s rs)))
   \<and> (idx \<in> slideIndex ` set (visibleHeights (reportHeights n s rs)) \<longrightarrow>
        visibleHeights (reportHeights n s (rs @ [(idx, Some v)])) =
          map (\<lambda>e. if slideIndex e = idx then \<lparr>slideIndex = idx, height = v\<rparr> else e)
            (visibleHeights (reportHeights n s rs))
        \<and> length (visibleHeights (reportHeights n s (rs @ [(idx, Some v)]))) =
            length (visibleHeights (reportHeights n s rs))
        \<and> map slideIndex (visibleHeights (reportHeights n s (rs @ [(idx, Some v)]))) =
            map slideIndex (visibleHeights (reportHeights n s rs)))
   \<and> (idx \<notin> slideIndex ` set (visibleHeights (reportHeights n s rs)) \<longrightarrow>
        visibleHeights (reportHeights n s (rs @ [(idx, Some v)])) =
          visibleHeights (reportHeights n s rs) @ [\<lparr>slideIndex = idx, height = v\<rparr>])
   \<and> visibleHeights (reportHeights n s (rs @ [(idx, None)])) =
        filter (\<lambda>e. slideIndex e \<noteq> idx) (visibleHeights (reportHeights n s rs))
   \<and> idx \<notin> slideIndex ` set (visibleHeights (reportHeights n s (rs @ [(idx, None)])))"
proof -
  let ?old = "visibleHeights (reportHeights n s rs)"
  have inv: "distinct (map slideIndex ?old)"
    by (rule reportHeights_distinct)
  have repl: "idx \<in> slideIndex ` set ?old \<longrightarrow>
        visibleHeights (reportHeights n s (rs @ [(idx, Some v)])) =
          map (\<lambda>e. if slideIndex e = idx then \<lparr>slideIndex = idx, height = v\<rparr> else e) ?old
        \<and> length (visibleHeights (reportHeights n s (rs @ [(idx, Some v)]))) = length ?old
        \<and> map slideIndex (visibleHeights (reportHeights n s (rs @ [(idx, Some v)]))) =
            map slideIndex ?old"
  proof
    assume "idx \<in> slideIndex ` set ?old"
    then have "visibleHeights (reportHeights n s (rs @ [(idx, Some v)])) =
          map (\<lambda>e. if slideIndex e = idx then \<lparr>slideIndex = idx, height = v\<rparr> else e) ?old"
      by (simp add: reportHeights_snoc visibleHeights_replace)
    then show "visibleHeights (reportHeights n s (rs @ [(idx, Some v)])) =
          map (\<lambda>e. if slideIndex e = idx then \<lparr>slideIndex = idx, height = v\<rparr> else e) ?old
        \<and> length (visibleHeights (reportHeights n s (rs @ [(idx, Some v)]))) = length ?old
        \<and> map slideIndex (visibleHeights (reportHeights n s (rs @ [(idx, Some v)]))) =
            map slideIndex ?old"
      by (simp only: replace_keeps_indices length_map simp_thms)
  qed
  have app: "idx \<notin> slideIndex ` set ?old \<longrightarrow>
        visibleHeights (reportHeights n s (rs @ [(idx, Some v)])) =
          ?old @ [\<lparr>slideIndex = idx, height = v\<rparr>]"
  proof
    assume "idx \<notin> slideIndex ` set ?old"
    then show "visibleHeights (reportHeights n s (rs @ [(idx, Some v)])) =
          ?old @ [\<lparr>slideIndex = idx, height = v\<rparr>]"
      by (simp add: reportHeights_snoc visibleHeights_append)
  qed
  have rem: "visibleHeights (reportHeights n s (rs @ [(idx, None)])) =
        filter (\<lambda>e. slideIndex e \<noteq> idx) ?old"
    by (simp only: reportHeights_snoc visibleHeights_remove)
  have gone: "idx \<notin> slideIndex ` set (visibleHeights (reportHeights n s (rs @ [(idx, None)])))"
    unfolding rem by auto
  from inv repl app rem gone show ?thesis by blast
qed

theorem visibleHeights_unique_index_witness:
  "distinct (map slideIndex (visibleHeights (reportHeights 5 2 [(0, Some 100), (1, Some 150)])))
   \<and> visibleHeights (reportHeights 5 2 ([(0, Some 100), (1, Some 150)] @ [(1, Some 120)])) =
       [\<lparr>slideIndex = 0, height = 100\<rparr>, \<lparr>slideIndex = 1, height = 120\<rparr>]
   \<and> visibleHeights (reportHeights 5 2 ([(0, Some 100), (1, Some 150)] @ [(2, Some 90)])) =
       [\<lparr>slideIndex = 0, height = 100\<rparr>, \<lparr>slideIndex = 1, height = 150\<rparr>,
        \<lparr>slideIndex = 2, height = 90\<rparr>]
   \<and> visibleHeights (reportHeights 5 2 ([(0, Some 100), (1, Some 150)] @ [(1, None)])) =
       [\<lparr>slideIndex = 0, height = 100\<rparr>]"
proof -
  have old: "visibleHeights (reportHeights 5 2 [(0, Some 100), (1, Some 150)]) =
      [\<lparr>slideIndex = 0, height = 100\<rparr>, \<lparr>slideIndex = 1, height = 150\<rparr>]"
    by (simp add: reportHeights_def handleVisibleSlideHeightChange_def initialFrameState_def)
  have found: "(1::real) \<in> slideIndex ` set (visibleHeights (reportHeights 5 2 [(0, Some 100), (1, Some 150)]))"
    by (simp add: old)
  have fresh: "(2::real) \<notin> slideIndex ` set (visibleHeights (reportHeights 5 2 [(0, Some 100), (1, Some 150)]))"
    by (simp add: old)
  show ?thesis
    using visibleHeights_unique_index [of 5 2 "[(0, Some 100), (1, Some 150)]" 1 120] found
          visibleHeights_unique_index [of 5 2 "[(0, Some 100), (1, Some 150)]" 2 90] fresh
    by (simp add: old)
qed

subsection \<open>The frame height\<close>

lemma initialized_step:
  "initializedAdaptiveHeight (handleVisibleSlideHeightChange n s idx h st) =
     (min n (of_int \<lceil>s\<rceil>) \<le>
        real (length (visibleHeights (handleVisibleSlideHeightChange n s idx h st)))
      \<or> initializedAdaptiveHeight st)"
  by (simp add: handleVisibleSlideHeightChange_def Let_def)

lemma initialized_iff:
  "initializedAdaptiveHeight (reportHeights n s rs) =
     (\<exists>k\<in>{1..length rs}.
        min n (of_int \<lceil>s\<rceil>) \<le> real (length (visibleHeights (reportHeights n s (take k rs)))))"
proof (induction rs rule: rev_induct)
  case Nil
  then show ?case by (simp add: reportHeights_def initialFrameState_def)
next
  case (snoc r rs)
  obtain idx h where r: "r = (idx, h)" by (cases r)
  let ?P = "\<lambda>xs k. min n (of_int \<lceil>s\<rceil>) \<le> real (length (visibleHeights (reportHeights n s (take k xs))))"
  have split: "(\<exists>k\<in>{1..length (rs @ [r])}. ?P (rs @ [r]) k) =
               (?P (rs @ [r]) (Suc (length rs)) \<or> (\<exists>k\<in>{1..length rs}. ?P (rs @ [r]) k))"
  proof -
    have "{1..length (rs @ [r])} = insert (Suc (length rs)) {1..length rs}"
      by auto
    then show ?thesis by simp
  qed
  have same: "(\<exists>k\<in>{1..length rs}. ?P (rs @ [r]) k) = (\<exists>k\<in>{1..length rs}. ?P rs k)"
    by simp
  have "initializedAdaptiveHeight (reportHeights n s (rs @ [r])) =
          (?P (rs @ [r]) (Suc (length rs)) \<or> initializedAdaptiveHeight (reportHeights n s rs))"
    using initialized_step [of n s idx h "reportHeights n s rs"]
    by (simp add: r reportHeights_snoc)
  then show ?case
    using snoc.IH split same by simp
qed

lemma maxHeight_Max: "maxHeight vs = Max (insert 0 (height ` set vs))"
  using Max.set_eq_fold [of 0 "map height vs"] by (simp add: maxHeight_def)

text \<open>
  Claim C1, as the code has it. With adaptiveHeight off the frame height is \<open>'auto'\<close>. With
  adaptiveHeight on it is \<open>'auto'\<close> until some call of \<open>handleVisibleSlideHeightChange\<close>
  leaves the collection with at least \<open>min(numSlides, ceil(slidesToShow))\<close> slide indices
  registered at the same time; from then on it is the maximum of 0 and the currently
  registered heights, in pixels, also after deregistrations have taken the collection below
  that number. With slidesToShow = 2 and numSlides = 5, reporting slide 0 at 100 and slide 1
  at 150 gives \<open>150px\<close>, and deregistering slide 1 afterwards gives \<open>100px\<close>.
\<close>

theorem frameHeight_two_phase:
  "frameHeight False st = Auto
   \<and> frameHeight True (reportHeights n s rs) =
       (if \<exists>k\<in>{1..length rs}.
             min n (of_int \<lceil>s\<rceil>) \<le>
               real (card (slideIndex ` set (visibleHeights (reportHeights n s (take k rs)))))
        then Px (Max (insert 0 (height ` set (visibleHeights (reportHeights n s rs)))))
        else Auto)
   \<and> frameHeight True (reportHeights 5 2 [(0, Some 100), (1, Some 150)]) = Px 150
   \<and> frameHeight True (reportHeights 5 2 [(0, Some 100), (1, Some 150), (1, None)]) = Px 100"
proof -
  have off: "frameHeight False st = Auto"
    by (simp add: frameHeight_def)
  have on: "frameHeight True (reportHeights n s rs) =
       (if \<exists>k\<in>{1..length rs}.
             min n (of_int \<lceil>s\<rceil>) \<le>
               real (card (slideIndex ` set (visibleHeights (reportHeights n s (take k rs)))))
        then Px (Max (insert 0 (height ` set (visibleHeights (reportHeights n s rs)))))
        else Auto)"
  proof -
    have "initializedAdaptiveHeight (reportHeights n s rs) =
       (\<exists>k\<in>{1..length rs}.
             min n (of_int \<lceil>s\<rceil>) \<le>
               real (card (slideIndex ` set (visibleHeights (reportHeights n s (take k rs))))))"
      by (simp only: registered_card initialized_iff)
    then show ?thesis
      by (simp add: frameHeight_def maxHeight_Max)
  qed
  have ex1: "frameHeight True (reportHeights 5 2 [(0, Some 100), (1, Some 150)]) = Px 150"
    by (simp add: frameHeight_def reportHeights_def handleVisibleSlideHeightChange_def
        initialFrameState_def maxHeight_def)
  have ex2: "frameHeight True (reportHeights 5 2 [(0, Some 100), (1, Some 150), (1, None)]) = Px 100"
    by (simp add: frameHeight_def reportHeights_def handleVisibleSlideHeightChange_def
        initialFrameState_def maxHeight_def)
  from off on ex1 ex2 show ?thesis by blast
qed

theorem frameHeight_two_phase_witness:
  "frameHeight True (reportHeights 3 1 [(4, Some 80), (4, None)]) = Px 0
   \<and> frameHeight True (reportHeights 3 2 [(4, Some 80), (4, None), (7, Some 60)]) = Auto"
proof -
  have len1: "visibleHeights (reportHeights 3 1 [(4, Some 80)]) =
        [\<lparr>slideIndex = 4, height = 80\<rparr>]"
    by (simp add: reportHeights_def handleVisibleSlideHeightChange_def initialFrameState_def)
  have reached: "\<exists>k\<in>{1..length [(4::real, Some (80::real)), (4, None)]}.
       min 3 (of_int \<lceil>1::real\<rceil>) \<le>
         real (card (slideIndex ` set (visibleHeights
           (reportHeights 3 1 (take k [(4, Some 80), (4, None)])))))"
    by (rule bexI [of _ 1]) (simp_all add: len1)
  have now1: "visibleHeights (reportHeights 3 1 [(4, Some 80), (4, None)]) = []"
    by (simp add: reportHeights_def handleVisibleSlideHeightChange_def initialFrameState_def)
  have first: "frameHeight True (reportHeights 3 1 [(4, Some 80), (4, None)]) = Px 0"
    using frameHeight_two_phase [of initialFrameState 3 1 "[(4, Some 80), (4, None)]"] reached
    by (simp add: now1)
  have never: "\<not> (\<exists>k\<in>{1..length [(4::real, Some (80::real)), (4, None), (7, Some 60)]}.
       min 3 (of_int \<lceil>2::real\<rceil>) \<le>
         real (card (slideIndex ` set (visibleHeights
           (reportHeights 3 2 (take k [(4, Some 80), (4, None), (7, Some 60)]))))))"
  proof -
    have "{1..length [(4::real, Some (80::real)), (4, None), (7, Some 60)]} = {1, 2, 3}"
      by auto
    then show ?thesis
      by (simp add: reportHeights_def handleVisibleSlideHeightChange_def initialFrameState_def
          take_Suc_conv_app_nth numeral_3_eq_3 numeral_2_eq_2)
  qed
  have second: "frameHeight True (reportHeights 3 2 [(4, Some 80), (4, None), (7, Some 60)]) = Auto"
    using frameHeight_two_phase [of initialFrameState 3 2 "[(4, Some 80), (4, None), (7, Some 60)]"] never
    by simp
  from first second show ?thesis by blast
qed

text \<open>
  Counting the distinct slides that have reported at least once is not the same: after slide
  0 has reported and deregistered and slide 1 has reported, two distinct slides have
  reported, yet the collection never held two entries and the frame height is still
  \<open>'auto'\<close>.
\<close>

theorem frameHeight_distinct_reports_counterexample:
  "min 5 (of_int \<lceil>2::real\<rceil>) \<le>
     real (length (reportedSlides [(0, Some 100), (0, None), (1, Some 150)]))
   \<and> frameHeight True (reportHeights 5 2 [(0, Some 100), (0, None), (1, Some 150)]) = Auto
   \<and> frameHeight True (reportHeights 5 2 [(0, Some 100), (0, None), (1, Some 150)]) \<noteq> Px 150"
  by (simp add: reportedSlides_def frameHeight_def reportHeights_def
      handleVisibleSlideHeightChange_def initialFrameState_def)

section \<open>Properties of the carousel controller\<close>

subsection \<open>What \<open>moveSlide\<close> changes\<close>

lemma moveSlide_currentSlide:
  "currentSlide (moveSlide u p to st) = (case to of Some t \<Rightarrow> t | None \<Rightarrow> currentSlide st)"
  by (simp add: moveSlide_def setTimeout_def Let_def split: option.splits)

lemma moveSlide_calls:
  "calls (moveSlide u p to st) =
     (case to of
        Some t \<Rightarrow> calls st @ [BeforeSlide
                    (firstIndex (getIndexes u (currentSlide st)
                       (currentSlide st - slidesToScroll_local p) (count p)))
                    (getNextIndex (count p) (currentSlide st) to)]
      | None \<Rightarrow> calls st)"
  by (simp add: moveSlide_def setTimeout_def Let_def split: option.splits)

lemma moveSlide_timeouts:
  "timeouts (moveSlide u p to st) =
     timeouts st @ [(nextHandle st, if \<not> disableAnimation p then speedOrDefault p else 40,
                     Settle to (getNextIndex (count p) (currentSlide st) to))]"
  by (simp add: moveSlide_def setTimeout_def Let_def split: option.splits)

lemma runTask_Settle_None:
  "calls (runTask u p (Settle None n) s) = calls s \<and>
   currentSlide (runTask u p (Settle None n) s) = currentSlide s"
  by (simp add: runTask_def)

subsection \<open>Index arithmetic\<close>

text \<open>
  Claim C7. For every integer count and integer index \<open>i\<close>, \<open>getNextIndex\<close> returns
  \<open>i + count\<close> when \<open>i < 0\<close>, 0 when \<open>i\<close> equals the count, and \<open>i\<close> otherwise, whether
  the index is passed or is the current slide; so for a count \<open>N > 0\<close> and \<open>i\<close> in
  \<open>[0, N)\<close> the result lies in \<open>[0, N)\<close>.
\<close>

theorem getNextIndex_cases:
  "getNextIndex (of_int c) cur (Some (of_int i)) =
     of_int (if i < 0 then i + c else if i = c then 0 else i)
   \<and> getNextIndex (of_int c) (of_int i) None =
     of_int (if i < 0 then i + c else if i = c then 0 else i)
   \<and> (0 < N \<and> 0 \<le> i \<and> i < N \<longrightarrow>
        0 \<le> getNextIndex (of_int N) cur (Some (of_int i)) \<and>
        getNextIndex (of_int N) cur (Some (of_int i)) < of_int N)"
  by (simp add: getNextIndex_def)

theorem getNextIndex_cases_witness:
  "getNextIndex 5 7 (Some (-2)) = 3 \<and> getNextIndex 5 7 (Some 5) = 0
   \<and> getNextIndex 5 7 (Some 4) = 4 \<and> getNextIndex 5 4 None = 4
   \<and> 0 \<le> getNextIndex 5 7 (Some 4) \<and> getNextIndex 5 7 (Some 4) < 5"
  using getNextIndex_cases [of 5 7 "-2" 5] getNextIndex_cases [of 5 7 5 5]
        getNextIndex_cases [of 5 7 4 5]
  by simp

subsection \<open>The initial slide\<close>

text \<open>
  Claim C10. On mount, the slide index is \<open>count - slidesToShow\<close> when autoplayReverse is
  enabled, whatever the configured slide index, and the configured \<open>slideIndex\<close> otherwise;
  the effect on \<open>props.slideIndex\<close> that runs after the first render keeps it so.
\<close>

theorem initial_slide_index:
  "currentSlide (initialState p) =
     (if autoplayReverse p then count p - slidesToShow p else slideIndex_prop p)
   \<and> currentSlide (slideIndexEffect u p (initialState p)) =
     (if autoplayReverse p then count p - slidesToShow p else slideIndex_prop p)"
  by (simp add: initialState_def slideIndexEffect_def moveSlide_currentSlide)

theorem initial_slide_index_witness:
  "currentSlide (initialState (exampleProps\<lparr>autoplayReverse := True, slideIndex_prop := 1\<rparr>)) = 3
   \<and> currentSlide (initialState (exampleProps\<lparr>slideIndex_prop := 1\<rparr>)) = 1
   \<and> currentSlide (slideIndexEffect exampleUtils (exampleProps\<lparr>slideIndex_prop := 1\<rparr>)
        (initialState (exampleProps\<lparr>slideIndex_prop := 1\<rparr>))) = 1"
  using initial_slide_index [of "exampleProps\<lparr>autoplayReverse := True, slideIndex_prop := 1\<rparr>" exampleUtils]
        initial_slide_index [of "exampleProps\<lparr>slideIndex_prop := 1\<rparr>" exampleUtils]
  by (simp add: exampleProps_def count_def)

subsection \<open>Moving without a target\<close>

text \<open>
  Claim C8. \<open>moveSlide()\<close> without an argument leaves the slide index unchanged and invokes
  neither the before-slide nor the after-slide callback, and so does calling it twice in a
  row: the callback log is unchanged by the calls, and every timeout they schedule, whenever
  it fires, leaves the log and the index as they are.
\<close>

theorem moveSlide_no_argument:
  "currentSlide (moveSlide u p None st) = currentSlide st
   \<and> calls (moveSlide u p None st) = calls st
   \<and> currentSlide (moveSlide u p None (moveSlide u p None st)) = currentSlide st
   \<and> calls (moveSlide u p None (moveSlide u p None st)) = calls st
   \<and> (\<forall>(h, d, t) \<in> set (timeouts (moveSlide u p None (moveSlide u p None st))) - set (timeouts st).
         \<forall>s. calls (runTask u p t s) = calls s \<and>
             currentSlide (runTask u p t s) = currentSlide s)"
  by (auto simp add: moveSlide_currentSlide moveSlide_calls moveSlide_timeouts runTask_Settle_None)

theorem moveSlide_no_argument_witness:
  "currentSlide (moveSlide exampleUtils exampleProps None (initialState exampleProps)) = 0
   \<and> calls (moveSlide exampleUtils exampleProps None
        (moveSlide exampleUtils exampleProps None (initialState exampleProps))) = []
   \<and> timeouts (moveSlide exampleUtils exampleProps None
        (moveSlide exampleUtils exampleProps None (initialState exampleProps))) =
       [(1, 500, Settle None 0), (2, 500, Settle None 0)]
   \<and> calls (fireTimeout exampleUtils exampleProps 2 (fireTimeout exampleUtils exampleProps 1
        (moveSlide exampleUtils exampleProps None
          (moveSlide exampleUtils exampleProps None (initialState exampleProps))))) = []
   \<and> currentSlide (fireTimeout exampleUtils exampleProps 2 (fireTimeout exampleUtils exampleProps 1
        (moveSlide exampleUtils exampleProps None
          (moveSlide exampleUtils exampleProps None (initialState exampleProps))))) = 0"
proof -
  have start: "currentSlide (initialState exampleProps) = 0 \<and> calls (initialState exampleProps) = []"
    by (simp add: initialState_def exampleProps_def)
  have pending: "timeouts (moveSlide exampleUtils exampleProps None
        (moveSlide exampleUtils exampleProps None (initialState exampleProps))) =
       [(1, 500, Settle None 0), (2, 500, Settle None 0)]"
    by (simp add: moveSlide_def setTimeout_def initialState_def exampleProps_def
        speedOrDefault_def getNextIndex_def count_def Let_def)
  have fired: "fireTimeout exampleUtils exampleProps 2 (fireTimeout exampleUtils exampleProps 1
        (moveSlide exampleUtils exampleProps None
          (moveSlide exampleUtils exampleProps None (initialState exampleProps)))) =
      (initialState exampleProps)\<lparr>nextHandle := 3\<rparr>"
    by (simp add: fireTimeout_def runTask_def clearTimeout_def moveSlide_def setTimeout_def
        initialState_def exampleProps_def speedOrDefault_def getNextIndex_def count_def Let_def)
  have after: "calls ((initialState exampleProps)\<lparr>nextHandle := 3\<rparr>) = []
      \<and> currentSlide ((initialState exampleProps)\<lparr>nextHandle := 3\<rparr>) = 0"
    by (simp add: start)
  from moveSlide_no_argument [of exampleUtils exampleProps "initialState exampleProps"]
  have "currentSlide (moveSlide exampleUtils exampleProps None (initialState exampleProps)) =
          currentSlide (initialState exampleProps)
        \<and> calls (moveSlide exampleUtils exampleProps None
            (moveSlide exampleUtils exampleProps None (initialState exampleProps))) =
          calls (initialState exampleProps)"
    by blast
  then show ?thesis
    by (simp only: start pending fired after simp_thms)
qed

subsection \<open>Next and previous slide\<close>

text \<open>
  Claim C4. Without wrap-around, \<open>nextSlide()\<close> at \<open>currentSlide \<ge> count - slidesToScroll\<close>
  and \<open>prevSlide()\<close> at \<open>currentSlide \<le> 0\<close> are \<open>moveSlide()\<close> without a target: the index
  stays and no before-slide or after-slide callback is invoked. Otherwise each passes the
  index computed by \<open>getNextMoveIndex\<close> or \<open>getPrevMoveIndex\<close> to \<open>moveSlide\<close>. With six
  slides, three shown and three scrolled, no wrap-around and \<open>getNextMoveIndex\<close> as the
  specification describes it, \<open>nextSlide()\<close> from index 0 moves to index 3 and a further
  \<open>nextSlide()\<close> changes neither the index nor the callback log.
\<close>

theorem nextSlide_prevSlide_guarded:
  "(\<not> wrapAround p \<and> currentSlide st \<ge> count p - slidesToScroll p \<longrightarrow>
      nextSlide u p st = moveSlide u p None st
      \<and> currentSlide (nextSlide u p st) = currentSlide st
      \<and> calls (nextSlide u p st) = calls st
      \<and> (\<forall>(h, d, t) \<in> set (timeouts (nextSlide u p st)) - set (timeouts st).
            \<forall>s. calls (runTask u p t s) = calls s))
   \<and> (\<not> wrapAround p \<and> currentSlide st \<le> 0 \<longrightarrow>
      prevSlide u p st = moveSlide u p None st
      \<and> currentSlide (prevSlide u p st) = currentSlide st
      \<and> calls (prevSlide u p st) = calls st)
   \<and> (wrapAround p \<or> currentSlide st < count p - slidesToScroll p \<longrightarrow>
      nextSlide u p st =
        moveSlide u p (Some (getNextMoveIndex u (scrollMode p) (wrapAround p) (currentSlide st)
                         (count p) (slidesToScroll p) (slidesToShow p))) st)
   \<and> (wrapAround p \<or> currentSlide st > 0 \<longrightarrow>
      prevSlide u p st =
        moveSlide u p (Some (getPrevMoveIndex u (scrollMode p) (wrapAround p) (currentSlide st)
                         (slidesToScroll p))) st)
   \<and> (getNextMoveIndex u = spec_getNextMoveIndex \<and> children p = 6 \<and> slidesToShow p = 3 \<and>
       slidesToScroll p = 3 \<and> \<not> wrapAround p \<and> currentSlide st = 0 \<longrightarrow>
      currentSlide (nextSlide u p st) = 3
      \<and> currentSlide (nextSlide u p (nextSlide u p st)) = 3
      \<and> calls (nextSlide u p (nextSlide u p st)) = calls (nextSlide u p st))"
proof -
  have blockedNext: "\<not> wrapAround p \<and> currentSlide st \<ge> count p - slidesToScroll p \<longrightarrow>
      nextSlide u p st = moveSlide u p None st
      \<and> currentSlide (nextSlide u p st) = currentSlide st
      \<and> calls (nextSlide u p st) = calls st
      \<and> (\<forall>(h, d, t) \<in> set (timeouts (nextSlide u p st)) - set (timeouts st).
            \<forall>s. calls (runTask u p t s) = calls s)"
    by (auto simp add: nextSlide_def moveSlide_currentSlide moveSlide_calls moveSlide_timeouts
        runTask_Settle_None)
  have blockedPrev: "\<not> wrapAround p \<and> currentSlide st \<le> 0 \<longrightarrow>
      prevSlide u p st = moveSlide u p None st
      \<and> currentSlide (prevSlide u p st) = currentSlide st
      \<and> calls (prevSlide u p st) = calls st"
    by (auto simp add: prevSlide_def moveSlide_currentSlide moveSlide_calls)
  have goNext: "wrapAround p \<or> currentSlide st < count p - slidesToScroll p \<longrightarrow>
      nextSlide u p st =
        moveSlide u p (Some (getNextMoveIndex u (scrollMode p) (wrapAround p) (currentSlide st)
                         (count p) (slidesToScroll p) (slidesToShow p))) st"
    by (simp add: nextSlide_def)
  have goPrev: "wrapAround p \<or> currentSlide st > 0 \<longrightarrow>
      prevSlide u p st =
        moveSlide u p (Some (getPrevMoveIndex u (scrollMode p) (wrapAround p) (currentSlide st)
                         (slidesToScroll p))) st"
    by (simp add: prevSlide_def)
  have example: "getNextMoveIndex u = spec_getNextMoveIndex \<and> children p = 6 \<and>
       slidesToShow p = 3 \<and> slidesToScroll p = 3 \<and> \<not> wrapAround p \<and> currentSlide st = 0 \<longrightarrow>
      currentSlide (nextSlide u p st) = 3
      \<and> currentSlide (nextSlide u p (nextSlide u p st)) = 3
      \<and> calls (nextSlide u p (nextSlide u p st)) = calls (nextSlide u p st)"
    by (simp add: nextSlide_def moveSlide_currentSlide moveSlide_calls count_def
        spec_getNextMoveIndex_def)
  from blockedNext blockedPrev goNext goPrev example show ?thesis by blast
qed

theorem nextSlide_prevSlide_guarded_witness:
  "currentSlide (nextSlide exampleUtils exampleProps (initialState exampleProps)) = 3
   \<and> currentSlide (nextSlide exampleUtils exampleProps
        (nextSlide exampleUtils exampleProps (initialState exampleProps))) = 3
   \<and> calls (nextSlide exampleUtils exampleProps
        (nextSlide exampleUtils exampleProps (initialState exampleProps))) =
       [BeforeSlide (Some 0) 3]
   \<and> currentSlide (prevSlide exampleUtils exampleProps (initialState exampleProps)) = 0
   \<and> calls (prevSlide exampleUtils exampleProps (initialState exampleProps)) = []"
proof -
  have cfg: "getNextMoveIndex exampleUtils = spec_getNextMoveIndex \<and> children exampleProps = 6 \<and>
       slidesToShow exampleProps = 3 \<and> slidesToScroll exampleProps = 3 \<and>
       \<not> wrapAround exampleProps \<and> currentSlide (initialState exampleProps) = 0"
    by (simp add: exampleUtils_def exampleProps_def initialState_def)
  have first: "calls (nextSlide exampleUtils exampleProps (initialState exampleProps)) =
       [BeforeSlide (Some 0) 3]"
    by (simp add: nextSlide_def moveSlide_calls exampleUtils_def exampleProps_def
        initialState_def count_def spec_getNextMoveIndex_def firstIndex_def getNextIndex_def)
  have atStart: "\<not> wrapAround exampleProps \<and> currentSlide (initialState exampleProps) \<le> 0"
    by (simp add: exampleProps_def initialState_def)
  have start: "currentSlide (initialState exampleProps) = 0 \<and> calls (initialState exampleProps) = []"
    by (simp add: initialState_def exampleProps_def)
  note general = nextSlide_prevSlide_guarded [of exampleProps "initialState exampleProps" exampleUtils]
  from general cfg have forward:
    "currentSlide (nextSlide exampleUtils exampleProps (initialState exampleProps)) = 3
     \<and> currentSlide (nextSlide exampleUtils exampleProps
          (nextSlide exampleUtils exampleProps (initialState exampleProps))) = 3
     \<and> calls (nextSlide exampleUtils exampleProps
          (nextSlide exampleUtils exampleProps (initialState exampleProps))) =
         calls (nextSlide exampleUtils exampleProps (initialState exampleProps))"
    by blast
  from general atStart have backward:
    "currentSlide (prevSlide exampleUtils exampleProps (initialState exampleProps)) =
       currentSlide (initialState exampleProps)
     \<and> calls (prevSlide exampleUtils exampleProps (initialState exampleProps)) =
       calls (initialState exampleProps)"
    by blast
  from forward backward show ?thesis
    by (simp only: first start simp_thms)
qed

subsection \<open>Ending a drag\<close>

lemma dragThreshold_Finite:
  "slidesToShow p \<noteq> 0 \<Longrightarrow>
   dragThreshold p st =
     Finite ((case carouselWidth st of None \<Rightarrow> 0 | Some w \<Rightarrow> real w) / slidesToShow p / 2)"
  by (simp add: dragThreshold_def)

lemma frameWidth_nonneg:
  "0 \<le> (case carouselWidth st of None \<Rightarrow> 0 | Some w \<Rightarrow> real w)"
  by (simp split: option.splits)

text \<open>
  Claim C2. At the end of a gesture (dragging enabled, a drag active, slidesToShow positive)
  the threshold is the measured frame width divided by slidesToShow and by 2. An offset of
  absolute value at most the threshold settles back through \<open>moveSlide()\<close> without a
  target, so the index stays; an offset above the threshold goes through \<open>nextSlide()\<close>,
  one below minus the threshold through \<open>prevSlide()\<close>; in every branch the offset and the
  previous raw delta are reset to 0. With a frame width of 300 and three slides shown the
  threshold is 50: an offset of 51 advances and one of 49 settles back.
\<close>

theorem handleDragEnd_threshold:
  assumes "dragging_prop p" and "dragging st" and "0 < slidesToShow p"
  shows "dragThreshold p st =
           Finite ((case carouselWidth st of None \<Rightarrow> 0 | Some w \<Rightarrow> real w) / slidesToShow p / 2)
    \<and> (\<bar>move st\<bar> \<le> (case carouselWidth st of None \<Rightarrow> 0 | Some w \<Rightarrow> real w) / slidesToShow p / 2 \<longrightarrow>
          handleDragEnd u p st =
            (moveSlide u p None (st\<lparr>dragging := False, calls := calls st @ [OnDragEnd]\<rparr>))
              \<lparr>move := 0, prevMove := 0\<rparr>
          \<and> currentSlide (handleDragEnd u p st) = currentSlide st)
    \<and> (move st > (case carouselWidth st of None \<Rightarrow> 0 | Some w \<Rightarrow> real w) / slidesToShow p / 2 \<longrightarrow>
          handleDragEnd u p st =
            (nextSlide u p (st\<lparr>dragging := False, calls := calls st @ [OnDragEnd]\<rparr>))
              \<lparr>move := 0, prevMove := 0\<rparr>)
    \<and> (move st < - ((case carouselWidth st of None \<Rightarrow> 0 | Some w \<Rightarrow> real w) / slidesToShow p / 2) \<longrightarrow>
          handleDragEnd u p st =
            (prevSlide u p (st\<lparr>dragging := False, calls := calls st @ [OnDragEnd]\<rparr>))
              \<lparr>move := 0, prevMove := 0\<rparr>)
    \<and> move (handleDragEnd u p st) = 0
    \<and> prevMove (handleDragEnd u p st) = 0
    \<and> (carouselWidth st = Some 300 \<and> slidesToShow p = 3 \<longrightarrow>
          dragThreshold p st = Finite 50
          \<and> (move st = 51 \<longrightarrow>
                handleDragEnd u p st =
                  (nextSlide u p (st\<lparr>dragging := False, calls := calls st @ [OnDragEnd]\<rparr>))
                    \<lparr>move := 0, prevMove := 0\<rparr>)
          \<and> (move st = 49 \<longrightarrow>
                handleDragEnd u p st =
                  (moveSlide u p None (st\<lparr>dragging := False, calls := calls st @ [OnDragEnd]\<rparr>))
                    \<lparr>move := 0, prevMove := 0\<rparr>
                \<and> currentSlide (handleDragEnd u p st) = currentSlide st))"
proof -
  let ?w = "case carouselWidth st of None \<Rightarrow> 0 | Some w \<Rightarrow> real w"
  let ?t = "?w / slidesToShow p / 2"
  let ?ended = "st\<lparr>dragging := False, calls := calls st @ [OnDragEnd]\<rparr>"
  have thr: "dragThreshold p st = Finite ?t"
    using assms(3) by (simp add: dragThreshold_Finite)
  have nonneg: "0 \<le> ?t"
    using assms(3) frameWidth_nonneg [of st] by simp
  have settle: "\<bar>move st\<bar> \<le> ?t \<longrightarrow>
      handleDragEnd u p st = (moveSlide u p None ?ended)\<lparr>move := 0, prevMove := 0\<rparr>
      \<and> currentSlide (handleDragEnd u p st) = currentSlide st"
    using assms(1,2) by (simp add: handleDragEnd_def Let_def thr leThreshold_def moveSlide_currentSlide)
  have advance: "move st > ?t \<longrightarrow>
      handleDragEnd u p st = (nextSlide u p ?ended)\<lparr>move := 0, prevMove := 0\<rparr>"
    using assms(1,2) nonneg by (simp add: handleDragEnd_def Let_def thr leThreshold_def)
  have retreat: "move st < - ?t \<longrightarrow>
      handleDragEnd u p st = (prevSlide u p ?ended)\<lparr>move := 0, prevMove := 0\<rparr>"
    using assms(1,2) nonneg by (simp add: handleDragEnd_def Let_def thr leThreshold_def)
  have reset: "move (handleDragEnd u p st) = 0 \<and> prevMove (handleDragEnd u p st) = 0"
    using assms(1,2) by (simp add: handleDragEnd_def Let_def)
  have example: "carouselWidth st = Some 300 \<and> slidesToShow p = 3 \<longrightarrow>
      dragThreshold p st = Finite 50
      \<and> (move st = 51 \<longrightarrow>
            handleDragEnd u p st = (nextSlide u p ?ended)\<lparr>move := 0, prevMove := 0\<rparr>)
      \<and> (move st = 49 \<longrightarrow>
            handleDragEnd u p st = (moveSlide u p None ?ended)\<lparr>move := 0, prevMove := 0\<rparr>
            \<and> currentSlide (handleDragEnd u p st) = currentSlide st)"
  proof
    assume cfg: "carouselWidth st = Some 300 \<and> slidesToShow p = 3"
    then have t50: "?t = 50" by simp
    from thr t50 have "dragThreshold p st = Finite 50" by simp
    moreover have "move st = 51 \<longrightarrow>
        handleDragEnd u p st = (nextSlide u p ?ended)\<lparr>move := 0, prevMove := 0\<rparr>"
    proof
      assume "move st = 51"
      then have "move st > ?t" by (simp only: t50)
      with advance show "handleDragEnd u p st = (nextSlide u p ?ended)\<lparr>move := 0, prevMove := 0\<rparr>"
        by blast
    qed
    moreover have "move st = 49 \<longrightarrow>
        handleDragEnd u p st = (moveSlide u p None ?ended)\<lparr>move := 0, prevMove := 0\<rparr>
        \<and> currentSlide (handleDragEnd u p st) = currentSlide st"
    proof
      assume "move st = 49"
      then have "\<bar>move st\<bar> \<le> ?t" by (simp only: t50)
      with settle show "handleDragEnd u p st = (moveSlide u p None ?ended)\<lparr>move := 0, prevMove := 0\<rparr>
        \<and> currentSlide (handleDragEnd u p st) = currentSlide st"
        by blast
    qed
    ultimately show "dragThreshold p st = Finite 50
      \<and> (move st = 51 \<longrightarrow>
            handleDragEnd u p st = (nextSlide u p ?ended)\<lparr>move := 0, prevMove := 0\<rparr>)
      \<and> (move st = 49 \<longrightarrow>
            handleDragEnd u p st = (moveSlide u p None ?ended)\<lparr>move := 0, prevMove := 0\<rparr>
            \<and> currentSlide (handleDragEnd u p st) = currentSlide st)"
      by blast
  qed
  from thr settle advance retreat reset example show ?thesis by blast
qed

theorem handleDragEnd_threshold_witness:
  "move (handlePointerMove exampleUtils exampleProps 72
          (handlePointerMove exampleUtils exampleProps 4
            (onMouseDown exampleProps (measureFrame 300 (initialState exampleProps))))) = 51
   \<and> currentSlide (handleDragEnd exampleUtils exampleProps
        (handlePointerMove exampleUtils exampleProps 72
          (handlePointerMove exampleUtils exampleProps 4
            (onMouseDown exampleProps (measureFrame 300 (initialState exampleProps)))))) = 3
   \<and> move (handleDragEnd exampleUtils exampleProps
        (handlePointerMove exampleUtils exampleProps 72
          (handlePointerMove exampleUtils exampleProps 4
            (onMouseDown exampleProps (measureFrame 300 (initialState exampleProps)))))) = 0
   \<and> prevMove (handleDragEnd exampleUtils exampleProps
        (handlePointerMove exampleUtils exampleProps 72
          (handlePointerMove exampleUtils exampleProps 4
            (onMouseDown exampleProps (measureFrame 300 (initialState exampleProps)))))) = 0
   \<and> move (handlePointerMove exampleUtils exampleProps 68
          (handlePointerMove exampleUtils exampleProps 4
            (onMouseDown exampleProps (measureFrame 300 (initialState exampleProps))))) = 48
   \<and> currentSlide (handleDragEnd exampleUtils exampleProps
        (handlePointerMove exampleUtils exampleProps 68
          (handlePointerMove exampleUtils exampleProps 4
            (onMouseDown exampleProps (measureFrame 300 (initialState exampleProps)))))) = 0
   \<and> move (handleDragEnd exampleUtils exampleProps
        (handlePointerMove exampleUtils exampleProps 68
          (handlePointerMove exampleUtils exampleProps 4
            (onMouseDown exampleProps (measureFrame 300 (initialState exampleProps)))))) = 0"
proof -
  let ?st = "handlePointerMove exampleUtils exampleProps 72
          (handlePointerMove exampleUtils exampleProps 4
            (onMouseDown exampleProps (measureFrame 300 (initialState exampleProps))))"
  let ?st' = "handlePointerMove exampleUtils exampleProps 68
          (handlePointerMove exampleUtils exampleProps 4
            (onMouseDown exampleProps (measureFrame 300 (initialState exampleProps))))"
  have st: "?st = (initialState exampleProps)
      \<lparr>dragging := True, move := 51, prevMove := 54, carouselWidth := Some 300,
       calls := [OnDragStart]\<rparr>"
    by (simp add: handlePointerMove_def onMouseDown_def measureFrame_def initialState_def
        exampleProps_def dragThreshold_def gtThreshold_def count_def Let_def)
  have st': "?st' = (initialState exampleProps)
      \<lparr>dragging := True, move := 48, prevMove := 51, carouselWidth := Some 300,
       calls := [OnDragStart]\<rparr>"
    by (simp add: handlePointerMove_def onMouseDown_def measureFrame_def initialState_def
        exampleProps_def dragThreshold_def gtThreshold_def count_def Let_def)
  have hyps: "dragging_prop exampleProps \<and> dragging ?st \<and> 0 < slidesToShow exampleProps
      \<and> move ?st = 51 \<and> carouselWidth ?st = Some 300 \<and> slidesToShow exampleProps = 3"
    by (simp add: st) (simp add: exampleProps_def)
  have hyps': "dragging_prop exampleProps \<and> dragging ?st' \<and> 0 < slidesToShow exampleProps
      \<and> move ?st' = 48 \<and> currentSlide ?st' = 0
      \<and> \<bar>move ?st'\<bar> \<le> (case carouselWidth ?st' of None \<Rightarrow> 0 | Some w \<Rightarrow> real w)
                           / slidesToShow exampleProps / 2"
    by (simp add: st') (simp add: exampleProps_def initialState_def)
  note general = handleDragEnd_threshold [of exampleProps ?st exampleUtils]
  note general' = handleDragEnd_threshold [of exampleProps ?st' exampleUtils]
  from general hyps have advance:
    "handleDragEnd exampleUtils exampleProps ?st =
       (nextSlide exampleUtils exampleProps
          (?st\<lparr>dragging := False, calls := calls ?st @ [OnDragEnd]\<rparr>))\<lparr>move := 0, prevMove := 0\<rparr>
     \<and> move (handleDragEnd exampleUtils exampleProps ?st) = 0
     \<and> prevMove (handleDragEnd exampleUtils exampleProps ?st) = 0"
    by blast
  have next3: "currentSlide ((nextSlide exampleUtils exampleProps
          (?st\<lparr>dragging := False, calls := calls ?st @ [OnDragEnd]\<rparr>))\<lparr>move := 0, prevMove := 0\<rparr>) = 3"
    by (simp add: st) (simp add: nextSlide_def moveSlide_currentSlide initialState_def
        exampleProps_def exampleUtils_def count_def spec_getNextMoveIndex_def)
  from advance have eq: "handleDragEnd exampleUtils exampleProps ?st =
       (nextSlide exampleUtils exampleProps
          (?st\<lparr>dragging := False, calls := calls ?st @ [OnDragEnd]\<rparr>))\<lparr>move := 0, prevMove := 0\<rparr>"
    by blast
  have c2: "currentSlide (handleDragEnd exampleUtils exampleProps ?st) = 3"
    unfolding eq by (rule next3)
  from hyps have c1: "move ?st = 51" by blast
  from advance have c3: "move (handleDragEnd exampleUtils exampleProps ?st) = 0"
    and c4: "prevMove (handleDragEnd exampleUtils exampleProps ?st) = 0"
    by blast+
  from hyps' have c5: "move ?st' = 48" by blast
  from general' hyps' have "currentSlide (handleDragEnd exampleUtils exampleProps ?st') =
       currentSlide ?st'"
    and c7: "move (handleDragEnd exampleUtils exampleProps ?st') = 0"
    by blast+
  with hyps' have c6: "currentSlide (handleDragEnd exampleUtils exampleProps ?st') = 0"
    by simp
  from c1 c2 c3 c4 c5 c6 c7 show ?thesis by blast
qed

subsection \<open>Moving the pointer\<close>

text \<open>
  Claim C6. For a pointer move with raw delta \<open>m\<close> while a drag is allowed and active and
  the offset has not exceeded the threshold: the previous raw delta becomes \<open>0.75 * m\<close> in
  every case. With \<open>0.75 * m - prevMove\<close> added to the offset as the candidate: without
  wrap-around, with edge swiping disabled and the move dragging past an edge (at or before
  the first slide with a candidate at most 0, or a positive candidate at or beyond
  \<open>count - slidesToShow\<close>), the offset stays as it is; otherwise the offset becomes the
  candidate if the previous raw delta was not 0, and stays otherwise. Nothing else changes.
\<close>

theorem handlePointerMove_offset:
  assumes "dragging_prop p" and "dragging st"
    and "\<not> gtThreshold \<bar>move st\<bar> (dragThreshold p st)"
  shows "prevMove (handlePointerMove u p m st) = 0.75 * m
    \<and> (\<not> wrapAround p \<and> disableEdgeSwiping p \<and>
         (currentSlide st \<le> 0 \<and> move st + (0.75 * m - prevMove st) \<le> 0 \<or>
          move st + (0.75 * m - prevMove st) > 0 \<and> currentSlide st \<ge> count p - slidesToShow p) \<longrightarrow>
          move (handlePointerMove u p m st) = move st
          \<and> handlePointerMove u p m st = st\<lparr>prevMove := 0.75 * m\<rparr>)
    \<and> (\<not> (\<not> wrapAround p \<and> disableEdgeSwiping p \<and>
            (currentSlide st \<le> 0 \<and> move st + (0.75 * m - prevMove st) \<le> 0 \<or>
             move st + (0.75 * m - prevMove st) > 0 \<and> currentSlide st \<ge> count p - slidesToShow p)) \<longrightarrow>
          move (handlePointerMove u p m st) =
            (if prevMove st \<noteq> 0 then move st + (0.75 * m - prevMove st) else move st)
          \<and> handlePointerMove u p m st =
              st\<lparr>move := (if prevMove st \<noteq> 0 then move st + (0.75 * m - prevMove st) else move st),
                 prevMove := 0.75 * m\<rparr>)"
  using assms by (simp add: handlePointerMove_def Let_def)

theorem handlePointerMove_offset_witness:
  "handlePointerMove exampleUtils (exampleProps\<lparr>disableEdgeSwiping := True\<rparr>) 4
     ((initialState exampleProps)\<lparr>dragging := True\<rparr>) =
     (initialState exampleProps)\<lparr>dragging := True, prevMove := 3\<rparr>
   \<and> handlePointerMove exampleUtils (exampleProps\<lparr>disableEdgeSwiping := True\<rparr>) (-4)
       ((initialState exampleProps)\<lparr>dragging := True, prevMove := 3\<rparr>) =
     (initialState exampleProps)\<lparr>dragging := True, prevMove := -3\<rparr>
   \<and> handlePointerMove exampleUtils exampleProps (-4)
       ((initialState exampleProps)\<lparr>dragging := True, prevMove := 3\<rparr>) =
     (initialState exampleProps)\<lparr>dragging := True, move := -6, prevMove := -3\<rparr>"
proof -
  let ?p = "exampleProps\<lparr>disableEdgeSwiping := True\<rparr>"
  let ?s0 = "(initialState exampleProps)\<lparr>dragging := True\<rparr>"
  let ?s1 = "(initialState exampleProps)\<lparr>dragging := True, prevMove := 3\<rparr>"
  have h0: "dragging_prop ?p" "dragging ?s0" "\<not> gtThreshold \<bar>move ?s0\<bar> (dragThreshold ?p ?s0)"
    by (simp_all add: exampleProps_def initialState_def dragThreshold_def gtThreshold_def)
  have h1: "dragging_prop ?p" "dragging ?s1" "\<not> gtThreshold \<bar>move ?s1\<bar> (dragThreshold ?p ?s1)"
    by (simp_all add: exampleProps_def initialState_def dragThreshold_def gtThreshold_def)
  have h2: "dragging_prop exampleProps" "dragging ?s1"
      "\<not> gtThreshold \<bar>move ?s1\<bar> (dragThreshold exampleProps ?s1)"
    by (simp_all add: exampleProps_def initialState_def dragThreshold_def gtThreshold_def)
  have free0: "\<not> (\<not> wrapAround ?p \<and> disableEdgeSwiping ?p \<and>
            (currentSlide ?s0 \<le> 0 \<and> move ?s0 + (0.75 * 4 - prevMove ?s0) \<le> 0 \<or>
             move ?s0 + (0.75 * 4 - prevMove ?s0) > 0 \<and> currentSlide ?s0 \<ge> count ?p - slidesToShow ?p))"
    by (simp add: exampleProps_def initialState_def count_def)
  have edge1: "\<not> wrapAround ?p \<and> disableEdgeSwiping ?p \<and>
         (currentSlide ?s1 \<le> 0 \<and> move ?s1 + (0.75 * (-4) - prevMove ?s1) \<le> 0 \<or>
          move ?s1 + (0.75 * (-4) - prevMove ?s1) > 0 \<and> currentSlide ?s1 \<ge> count ?p - slidesToShow ?p)"
    by (simp add: exampleProps_def initialState_def count_def)
  have free2: "\<not> (\<not> wrapAround exampleProps \<and> disableEdgeSwiping exampleProps \<and>
            (currentSlide ?s1 \<le> 0 \<and> move ?s1 + (0.75 * (-4) - prevMove ?s1) \<le> 0 \<or>
             move ?s1 + (0.75 * (-4) - prevMove ?s1) > 0 \<and>
             currentSlide ?s1 \<ge> count exampleProps - slidesToShow exampleProps))"
    by (simp add: exampleProps_def initialState_def count_def)
  from handlePointerMove_offset [OF h0, of exampleUtils 4] free0
  have "handlePointerMove exampleUtils ?p 4 ?s0 =
      ?s0\<lparr>move := (if prevMove ?s0 \<noteq> 0 then move ?s0 + (0.75 * 4 - prevMove ?s0) else move ?s0),
         prevMove := 0.75 * 4\<rparr>"
    by blast
  then have first: "handlePointerMove exampleUtils ?p 4 ?s0 = ?s1"
    by (simp add: initialState_def)
  from handlePointerMove_offset [OF h1, of exampleUtils "-4"] edge1
  have "handlePointerMove exampleUtils ?p (-4) ?s1 = ?s1\<lparr>prevMove := 0.75 * (-4)\<rparr>"
    by blast
  then have second: "handlePointerMove exampleUtils ?p (-4) ?s1 =
      (initialState exampleProps)\<lparr>dragging := True, prevMove := -3\<rparr>"
    by (simp add: initialState_def)
  from handlePointerMove_offset [OF h2, of exampleUtils "-4"] free2
  have "handlePointerMove exampleUtils exampleProps (-4) ?s1 =
      ?s1\<lparr>move := (if prevMove ?s1 \<noteq> 0 then move ?s1 + (0.75 * (-4) - prevMove ?s1) else move ?s1),
         prevMove := 0.75 * (-4)\<rparr>"
    by blast
  then have third: "handlePointerMove exampleUtils exampleProps (-4) ?s1 =
      (initialState exampleProps)\<lparr>dragging := True, move := -6, prevMove := -3\<rparr>"
    by (simp add: initialState_def)
  from first second third show ?thesis by blast
qed

subsection \<open>The wrap-around correction\<close>

lemma find_append_None:
  "find P xs = None \<Longrightarrow> find P (xs @ ys) = find P ys"
  by (induction xs) (auto split: if_splits)

lemma fire_fresh:
  "nextHandle st \<notin> fst ` set (timeouts st) \<Longrightarrow>
   fireTimeout u p (nextHandle st) (snd (setTimeout t d st)) =
     runTask u p t (st\<lparr>nextHandle := Suc (nextHandle st)\<rparr>)"
proof -
  assume fresh: "nextHandle st \<notin> fst ` set (timeouts st)"
  then have none: "find (\<lambda>(h', d', t'). h' = nextHandle st) (timeouts st) = None"
    by (force simp add: find_None_iff)
  from fresh have keep: "filter (\<lambda>(h', d', t'). h' \<noteq> nextHandle st) (timeouts st) = timeouts st"
    by (force simp add: filter_id_conv)
  show ?thesis
    by (simp add: fireTimeout_def setTimeout_def clearTimeout_def find_append_None none keep)
qed

text \<open>
  Claim C3, as the code has it. With wrap-around enabled and autoplay disabled, the effect
  schedules, at an index at most \<open>-slidesToShow\<close>, a correction after the settle speed (the
  configured speed, 500 when it is 0, and 0 when animation is disabled) plus 10 ms, which
  sets the index to \<open>count + index\<close> if the component is still mounted when it fires: from
  \<open>-slidesToShow\<close> exactly, to \<open>count - slidesToShow\<close>. Otherwise, at an index of at least
  \<open>count\<close>, it schedules after the same delay a correction to \<open>index - count\<close>. The index
  itself is unchanged until the correction fires.
\<close>

theorem wrapCorrection_schedules:
  assumes "wrapAround p" and "\<not> autoplay p"
  shows "(currentSlide st \<le> - slidesToShow p \<longrightarrow>
            wrapCorrection p st =
              snd (setTimeout (Correction (count p + currentSlide st))
                     ((if \<not> disableAnimation p then speedOrDefault p else 0) + 10) st)
            \<and> timeouts (wrapCorrection p st) =
                timeouts st @ [(nextHandle st,
                                (if \<not> disableAnimation p then speedOrDefault p else 0) + 10,
                                Correction (count p + currentSlide st))]
            \<and> (isMounted st \<and> nextHandle st \<notin> fst ` set (timeouts st) \<longrightarrow>
                 currentSlide (fireTimeout u p (nextHandle st) (wrapCorrection p st)) =
                   count p + currentSlide st))
    \<and> (currentSlide st = - slidesToShow p \<and> isMounted st \<and>
        nextHandle st \<notin> fst ` set (timeouts st) \<longrightarrow>
          currentSlide (fireTimeout u p (nextHandle st) (wrapCorrection p st)) =
            count p - slidesToShow p)
    \<and> (- slidesToShow p < currentSlide st \<and> currentSlide st \<ge> count p \<longrightarrow>
            wrapCorrection p st =
              snd (setTimeout (Correction (currentSlide st - count p))
                     ((if \<not> disableAnimation p then speedOrDefault p else 0) + 10) st)
            \<and> timeouts (wrapCorrection p st) =
                timeouts st @ [(nextHandle st,
                                (if \<not> disableAnimation p then speedOrDefault p else 0) + 10,
                                Correction (currentSlide st - count p))]
            \<and> (isMounted st \<and> nextHandle st \<notin> fst ` set (timeouts st) \<longrightarrow>
                 currentSlide (fireTimeout u p (nextHandle st) (wrapCorrection p st)) =
                   currentSlide st - count p))
    \<and> (- slidesToShow p < currentSlide st \<and> currentSlide st < count p \<longrightarrow>
            wrapCorrection p st = st)
    \<and> currentSlide (wrapCorrection p st) = currentSlide st"
proof -
  let ?d = "(if \<not> disableAnimation p then speedOrDefault p else 0) + 10"
  have low: "currentSlide st \<le> - slidesToShow p \<longrightarrow>
      wrapCorrection p st = snd (setTimeout (Correction (count p + currentSlide st)) ?d st)"
    using assms by (simp add: wrapCorrection_def Let_def)
  have high: "- slidesToShow p < currentSlide st \<and> currentSlide st \<ge> count p \<longrightarrow>
      wrapCorrection p st = snd (setTimeout (Correction (currentSlide st - count p)) ?d st)"
    using assms by (simp add: wrapCorrection_def Let_def)
  have inside: "- slidesToShow p < currentSlide st \<and> currentSlide st < count p \<longrightarrow>
      wrapCorrection p st = st"
    using assms by (simp add: wrapCorrection_def Let_def)
  have pending: "timeouts (snd (setTimeout t d st)) = timeouts st @ [(nextHandle st, d, t)]" for t d
    by (simp add: setTimeout_def)
  have fired: "isMounted st \<and> nextHandle st \<notin> fst ` set (timeouts st) \<longrightarrow>
      currentSlide (fireTimeout u p (nextHandle st) (snd (setTimeout (Correction v) d st))) = v" for v d
    by (simp add: fire_fresh runTask_def)
  have same: "currentSlide (wrapCorrection p st) = currentSlide st"
    by (simp add: wrapCorrection_def setTimeout_def Let_def)
  have exact: "currentSlide st = - slidesToShow p \<and> isMounted st \<and>
        nextHandle st \<notin> fst ` set (timeouts st) \<longrightarrow>
          currentSlide (fireTimeout u p (nextHandle st) (wrapCorrection p st)) =
            count p - slidesToShow p"
  proof
    assume a: "currentSlide st = - slidesToShow p \<and> isMounted st \<and>
        nextHandle st \<notin> fst ` set (timeouts st)"
    with low have "wrapCorrection p st =
        snd (setTimeout (Correction (count p + currentSlide st)) ?d st)"
      by simp
    with a fired [of "count p + currentSlide st" ?d]
    show "currentSlide (fireTimeout u p (nextHandle st) (wrapCorrection p st)) =
            count p - slidesToShow p"
      by simp
  qed
  from low high inside same exact show ?thesis
    using pending fired by auto
qed

theorem wrapCorrection_schedules_witness:
  "currentSlide (prevSlide exampleUtils
       (exampleProps\<lparr>children := 5, slidesToShow := 1, slidesToScroll := 1, wrapAround := True\<rparr>)
       (initialState
          (exampleProps\<lparr>children := 5, slidesToShow := 1, slidesToScroll := 1, wrapAround := True\<rparr>))) = -1
   \<and> timeouts (wrapCorrection
       (exampleProps\<lparr>children := 5, slidesToShow := 1, slidesToScroll := 1, wrapAround := True\<rparr>)
       (prevSlide exampleUtils
          (exampleProps\<lparr>children := 5, slidesToShow := 1, slidesToScroll := 1, wrapAround := True\<rparr>)
          (initialState
             (exampleProps\<lparr>children := 5, slidesToShow := 1, slidesToScroll := 1, wrapAround := True\<rparr>)))) =
       [(1, 500, Settle (Some (-1)) 4), (2, 510, Correction 4)]
   \<and> currentSlide (fireTimeout exampleUtils
       (exampleProps\<lparr>children := 5, slidesToShow := 1, slidesToScroll := 1, wrapAround := True\<rparr>) 2
       (wrapCorrection
          (exampleProps\<lparr>children := 5, slidesToShow := 1, slidesToScroll := 1, wrapAround := True\<rparr>)
          (prevSlide exampleUtils
             (exampleProps\<lparr>children := 5, slidesToShow := 1, slidesToScroll := 1, wrapAround := True\<rparr>)
             (initialState
                (exampleProps\<lparr>children := 5, slidesToShow := 1, slidesToScroll := 1, wrapAround := True\<rparr>))))) = 4"
proof -
  let ?p = "exampleProps\<lparr>children := 5, slidesToShow := 1, slidesToScroll := 1, wrapAround := True\<rparr>"
  let ?st = "prevSlide exampleUtils ?p (initialState ?p)"
  have cur: "currentSlide ?st = -1"
    by (simp add: prevSlide_def moveSlide_currentSlide exampleProps_def exampleUtils_def
        spec_getPrevMoveIndex_def initialState_def)
  have pend: "timeouts ?st = [(1, 500, Settle (Some (-1)) 4)]"
    by (simp add: prevSlide_def moveSlide_timeouts exampleProps_def exampleUtils_def
        spec_getPrevMoveIndex_def initialState_def speedOrDefault_def getNextIndex_def count_def)
  have handle: "nextHandle ?st = 2"
    by (simp add: prevSlide_def moveSlide_def setTimeout_def Let_def exampleProps_def initialState_def)
  have mounted: "isMounted ?st"
    by (simp add: prevSlide_def moveSlide_def setTimeout_def Let_def exampleProps_def initialState_def)
  have cfg: "wrapAround ?p" "\<not> autoplay ?p"
    by (simp_all add: exampleProps_def)
  have shown: "slidesToShow ?p = 1" and cnt: "count ?p = 5"
    by (simp_all add: exampleProps_def count_def)
  have low: "currentSlide ?st \<le> - slidesToShow ?p"
    unfolding cur shown by simp
  have fresh: "isMounted ?st \<and> nextHandle ?st \<notin> fst ` set (timeouts ?st)"
    by (simp add: mounted pend handle)
  have target: "count ?p + currentSlide ?st = 4"
    unfolding cur cnt by simp
  have delay: "(if \<not> disableAnimation ?p then speedOrDefault ?p else 0) + 10 = 510"
    by (simp add: exampleProps_def speedOrDefault_def)
  note vals = target delay
  from wrapCorrection_schedules [OF cfg, of ?st exampleUtils] low fresh
  have "timeouts (wrapCorrection ?p ?st) =
          timeouts ?st @ [(nextHandle ?st,
                           (if \<not> disableAnimation ?p then speedOrDefault ?p else 0) + 10,
                           Correction (count ?p + currentSlide ?st))]"
    and "currentSlide (fireTimeout exampleUtils ?p (nextHandle ?st) (wrapCorrection ?p ?st)) =
          count ?p + currentSlide ?st"
    by blast+
  then have "timeouts (wrapCorrection ?p ?st) =
       [(1, 500, Settle (Some (-1)) 4), (2, 510, Correction 4)]"
    and "currentSlide (fireTimeout exampleUtils ?p 2 (wrapCorrection ?p ?st)) = 4"
    by (simp_all only: vals pend handle append.simps)
  with cur show ?thesis by blast
qed

text \<open>
  With autoplay enabled the effect schedules nothing, wrap-around or not: here the index
  equals the count and no correction is pending afterwards.
\<close>

theorem wrapCorrection_autoplay_counterexample:
  "wrapAround (exampleProps\<lparr>children := 5, slidesToShow := 1, slidesToScroll := 1,
                 slideIndex_prop := 5, wrapAround := True, autoplay := True\<rparr>)
   \<and> currentSlide (initialState (exampleProps\<lparr>children := 5, slidesToShow := 1, slidesToScroll := 1,
                 slideIndex_prop := 5, wrapAround := True, autoplay := True\<rparr>)) \<ge>
       count (exampleProps\<lparr>children := 5, slidesToShow := 1, slidesToScroll := 1,
                 slideIndex_prop := 5, wrapAround := True, autoplay := True\<rparr>)
   \<and> timeouts (wrapCorrection (exampleProps\<lparr>children := 5, slidesToShow := 1, slidesToScroll := 1,
                 slideIndex_prop := 5, wrapAround := True, autoplay := True\<rparr>)
        (initialState (exampleProps\<lparr>children := 5, slidesToShow := 1, slidesToScroll := 1,
                 slideIndex_prop := 5, wrapAround := True, autoplay := True\<rparr>))) = []"
  by (simp add: wrapCorrection_def exampleProps_def initialState_def count_def)

subsection \<open>The correction under autoplay\<close>

text \<open>
  Claim C5, as the code has it. With autoplay active, wrap-around enabled and no animation
  in progress, the effect sets the index to \<open>index - count\<close> when the index exceeds the
  count and to \<open>count + index\<close> when it is below 0, at once, and in both cases clears the
  timeout whose handle \<open>timer\<close> holds; an index from 0 to the count is left alone. The
  result lies in \<open>[0, count)\<close> when the index was above the count and below twice the
  count, or below 0 and at least minus the count.
\<close>

theorem autoplayCorrection_snaps:
  assumes "autoplay p" and "\<not> animation st" and "wrapAround p"
  shows "(currentSlide st > count p \<longrightarrow>
            autoplayCorrection p st =
              clearAutoplayTimer (st\<lparr>currentSlide := currentSlide st - count p\<rparr>)
            \<and> currentSlide (autoplayCorrection p st) = currentSlide st - count p)
    \<and> (currentSlide st < 0 \<longrightarrow>
            autoplayCorrection p st =
              clearAutoplayTimer (st\<lparr>currentSlide := count p + currentSlide st\<rparr>)
            \<and> currentSlide (autoplayCorrection p st) = count p + currentSlide st)
    \<and> (0 \<le> currentSlide st \<and> currentSlide st \<le> count p \<longrightarrow> autoplayCorrection p st = st)
    \<and> (currentSlide st > count p \<or> currentSlide st < 0 \<longrightarrow>
          timeouts (autoplayCorrection p st) =
            (case timer st of
               None \<Rightarrow> timeouts st
             | Some h \<Rightarrow> filter (\<lambda>(h', d, t). h' \<noteq> h) (timeouts st))
          \<and> (\<forall>h. timer st = Some h \<longrightarrow> h \<notin> fst ` set (timeouts (autoplayCorrection p st))))
    \<and> (count p < currentSlide st \<and> currentSlide st < 2 * count p \<or>
        - count p \<le> currentSlide st \<and> currentSlide st < 0 \<longrightarrow>
          0 \<le> currentSlide (autoplayCorrection p st) \<and>
          currentSlide (autoplayCorrection p st) < count p)"
proof -
  have nonneg: "0 \<le> count p"
    by (simp add: count_def)
  have cur: "currentSlide (clearAutoplayTimer s) = currentSlide s" for s
    by (simp add: clearAutoplayTimer_def clearTimeout_def split: option.splits)
  have pend: "timeouts (clearAutoplayTimer s) =
      (case timer s of None \<Rightarrow> timeouts s
       | Some h \<Rightarrow> filter (\<lambda>(h', d, t). h' \<noteq> h) (timeouts s))" for s
    by (simp add: clearAutoplayTimer_def clearTimeout_def split: option.splits)
  have above: "currentSlide st > count p \<longrightarrow>
      autoplayCorrection p st = clearAutoplayTimer (st\<lparr>currentSlide := currentSlide st - count p\<rparr>)"
    using assms by (simp add: autoplayCorrection_def)
  have below: "currentSlide st < 0 \<longrightarrow>
      autoplayCorrection p st = clearAutoplayTimer (st\<lparr>currentSlide := count p + currentSlide st\<rparr>)"
    using assms nonneg by (simp add: autoplayCorrection_def)
  have inside: "0 \<le> currentSlide st \<and> currentSlide st \<le> count p \<longrightarrow> autoplayCorrection p st = st"
    using assms by (simp add: autoplayCorrection_def)
  have cancelled: "currentSlide st > count p \<or> currentSlide st < 0 \<longrightarrow>
          timeouts (autoplayCorrection p st) =
            (case timer st of
               None \<Rightarrow> timeouts st
             | Some h \<Rightarrow> filter (\<lambda>(h', d, t). h' \<noteq> h) (timeouts st))"
    using above below by (auto simp add: pend split: option.splits)
  then have gone: "currentSlide st > count p \<or> currentSlide st < 0 \<longrightarrow>
      (\<forall>h. timer st = Some h \<longrightarrow> h \<notin> fst ` set (timeouts (autoplayCorrection p st)))"
    by auto
  have range: "count p < currentSlide st \<and> currentSlide st < 2 * count p \<or>
        - count p \<le> currentSlide st \<and> currentSlide st < 0 \<longrightarrow>
          0 \<le> currentSlide (autoplayCorrection p st) \<and>
          currentSlide (autoplayCorrection p st) < count p"
    using above below nonneg by (auto simp add: cur)
  from above below inside cancelled gone range show ?thesis
    by (simp add: cur)
qed

theorem autoplayCorrection_snaps_witness:
  "timeouts (autoplayEffect
       (exampleProps\<lparr>children := 5, slideIndex_prop := 6, wrapAround := True, autoplay := True\<rparr>)
       (initialState
         (exampleProps\<lparr>children := 5, slideIndex_prop := 6, wrapAround := True, autoplay := True\<rparr>))) =
     [(1, 3000, AutoplayTick 6)]
   \<and> currentSlide (autoplayCorrection
       (exampleProps\<lparr>children := 5, slideIndex_prop := 6, wrapAround := True, autoplay := True\<rparr>)
       (autoplayEffect
         (exampleProps\<lparr>children := 5, slideIndex_prop := 6, wrapAround := True, autoplay := True\<rparr>)
         (initialState
           (exampleProps\<lparr>children := 5, slideIndex_prop := 6, wrapAround := True, autoplay := True\<rparr>)))) = 1
   \<and> timeouts (autoplayCorrection
       (exampleProps\<lparr>children := 5, slideIndex_prop := 6, wrapAround := True, autoplay := True\<rparr>)
       (autoplayEffect
         (exampleProps\<lparr>children := 5, slideIndex_prop := 6, wrapAround := True, autoplay := True\<rparr>)
         (initialState
           (exampleProps\<lparr>children := 5, slideIndex_prop := 6, wrapAround := True, autoplay := True\<rparr>)))) = []"
proof -
  let ?p = "exampleProps\<lparr>children := 5, slideIndex_prop := 6, wrapAround := True, autoplay := True\<rparr>"
  let ?st = "autoplayEffect ?p (initialState ?p)"
  have st: "?st = (initialState ?p)\<lparr>timer := Some 1, timeouts := [(1, 3000, AutoplayTick 6)],
                                     nextHandle := 2\<rparr>"
    by (simp add: autoplayEffect_def setTimeout_def initialState_def exampleProps_def Let_def)
  have pend: "timeouts ?st = [(1, 3000, AutoplayTick 6)]"
    and tm: "timer ?st = Some 1" and cur: "currentSlide ?st = 6"
    by (simp_all add: st) (simp add: initialState_def exampleProps_def)
  have cfg: "autoplay ?p" "\<not> animation ?st" "wrapAround ?p"
    by (simp_all add: st) (simp_all add: initialState_def exampleProps_def)
  have cnt: "count ?p = 5"
    by (simp add: exampleProps_def count_def)
  have above: "currentSlide ?st > count ?p"
    unfolding cur cnt by simp
  from autoplayCorrection_snaps [OF cfg] above
  have "currentSlide (autoplayCorrection ?p ?st) = currentSlide ?st - count ?p"
    and "timeouts (autoplayCorrection ?p ?st) =
          (case timer ?st of
             None \<Rightarrow> timeouts ?st
           | Some h \<Rightarrow> filter (\<lambda>(h', d, t). h' \<noteq> h) (timeouts ?st))"
    by blast+
  then have "currentSlide (autoplayCorrection ?p ?st) = 1"
    and "timeouts (autoplayCorrection ?p ?st) = []"
    unfolding cur cnt tm pend by simp_all
  with pend show ?thesis by blast
qed

text \<open>
  One subtraction does not always reach the range: with five slides, index 11 becomes 6.
\<close>

theorem autoplayCorrection_range_counterexample:
  "autoplay (exampleProps\<lparr>children := 5, slideIndex_prop := 11, wrapAround := True, autoplay := True\<rparr>)
   \<and> wrapAround (exampleProps\<lparr>children := 5, slideIndex_prop := 11, wrapAround := True, autoplay := True\<rparr>)
   \<and> \<not> animation (initialState
         (exampleProps\<lparr>children := 5, slideIndex_prop := 11, wrapAround := True, autoplay := True\<rparr>))
   \<and> currentSlide (initialState
         (exampleProps\<lparr>children := 5, slideIndex_prop := 11, wrapAround := True, autoplay := True\<rparr>)) >
       count (exampleProps\<lparr>children := 5, slideIndex_prop := 11, wrapAround := True, autoplay := True\<rparr>)
   \<and> currentSlide (autoplayCorrection
         (exampleProps\<lparr>children := 5, slideIndex_prop := 11, wrapAround := True, autoplay := True\<rparr>)
         (initialState
           (exampleProps\<lparr>children := 5, slideIndex_prop := 11, wrapAround := True, autoplay := True\<rparr>))) = 6
   \<and> \<not> currentSlide (autoplayCorrection
         (exampleProps\<lparr>children := 5, slideIndex_prop := 11, wrapAround := True, autoplay := True\<rparr>)
         (initialState
           (exampleProps\<lparr>children := 5, slideIndex_prop := 11, wrapAround := True, autoplay := True\<rparr>))) <
       count (exampleProps\<lparr>children := 5, slideIndex_prop := 11, wrapAround := True, autoplay := True\<rparr>)"
  by (simp add: autoplayCorrection_def clearAutoplayTimer_def exampleProps_def initialState_def
      count_def)

end
